theory Spec2Isabelle
  imports Main "HOL-Library.Monad_Syntax"
begin

section \<open>Data model (the exported interfaces of the types module)\<close>

text \<open>
  The interfaces \<^verbatim>\<open>CardElement\<close>, \<^verbatim>\<open>CardContent\<close>, \<^verbatim>\<open>Card\<close> and \<^verbatim>\<open>Deck\<close> become records.
  An optional field (\<^verbatim>\<open>width?: number\<close>) is an \<open>option\<close>. The source's \<^verbatim>\<open>number\<close> is
  modelled by integers: coordinates and style numbers are \<open>int\<close>; the custom card
  dimensions of a deck, which are lengths in points, are \<open>nat\<close>. Fields called
  \<^verbatim>\<open>id\<close> and \<^verbatim>\<open>type\<close> in the source carry the name of their interface as a prefix,
  because several interfaces share them.
\<close>

datatype element_type = Text | Image | Shape

record CardElement =
  element_id :: string
  element_type :: element_type
  content :: string
  x :: int
  y :: int
  width :: "int option"
  height :: "int option"
  fontSize :: "int option"
  fontFamily :: "string option"
  fontWeight :: "string option"
  color :: "string option"
  backgroundColor :: "string option"
  rotation :: "int option"
  zIndex :: "int option"

record CardContent =
  elements :: "CardElement list"
  content_backgroundColor :: "string option"
  backgroundImage :: "string option"

record Card =
  card_id :: string
  deck_id :: string
  title :: "string option"
  front_content :: CardContent
  back_content :: CardContent
  position :: int
  card_created_at :: string
  card_updated_at :: string

datatype card_size = Size3x5 | Size4x6 | Size5x8 | Custom

record Deck =
  deck_ident :: string
  name :: string
  description :: "string option"
  folder_id :: "string option"
  owner_id :: string
  is_shared :: bool
  deck_card_size :: card_size
  custom_width :: "nat option"
  custom_height :: "nat option"
  deck_created_at :: string
  deck_updated_at :: string

section \<open>Print layout and pagination (component PrintPreview)\<close>

datatype paper_size = Letter | A4 | Legal

datatype orientation = Portrait | Landscape

datatype margins = Normal | Narrow

text \<open>
  The state \<^verbatim>\<open>printSettings\<close>. Its field \<^verbatim>\<open>cardsPerPage\<close> (initially 6) is called
  \<open>cardsPerPageSetting\<close> here; the layout record below has the computed \<open>cardsPerPage\<close>.
\<close>

record printSettings =
  cardSize :: card_size
  cardsPerPageSetting :: nat
  includeBack :: bool
  paperSize :: paper_size
  orientation :: orientation
  margins :: margins

record dims =
  dim_width :: nat
  dim_height :: nat

text \<open>\<^verbatim>\<open>a || b\<close> on an optional number: \<^verbatim>\<open>undefined\<close> and \<^verbatim>\<open>0\<close> are falsy.\<close>

definition or_default :: "nat option \<Rightarrow> nat \<Rightarrow> nat" where
  "or_default v d = (case v of None \<Rightarrow> d | Some n \<Rightarrow> if n = 0 then d else n)"

definition cardSizes :: "Deck \<Rightarrow> card_size \<Rightarrow> dims" where
  "cardSizes deck cs =
     (case cs of
        Size3x5 \<Rightarrow> \<lparr>dim_width = 216, dim_height = 360\<rparr>
      | Size4x6 \<Rightarrow> \<lparr>dim_width = 288, dim_height = 432\<rparr>
      | Size5x8 \<Rightarrow> \<lparr>dim_width = 360, dim_height = 576\<rparr>
      | Custom \<Rightarrow> \<lparr>dim_width = or_default (custom_width deck) 216,
                    dim_height = or_default (custom_height deck) 360\<rparr>)"

definition paperSizes :: "paper_size \<Rightarrow> dims" where
  "paperSizes ps =
     (case ps of
        Letter \<Rightarrow> \<lparr>dim_width = 612, dim_height = 792\<rparr>
      | A4 \<Rightarrow> \<lparr>dim_width = 595, dim_height = 842\<rparr>
      | Legal \<Rightarrow> \<lparr>dim_width = 612, dim_height = 1008\<rparr>)"

definition margin :: "printSettings \<Rightarrow> nat" where
  "margin s = (if margins s = Normal then 36 else 18)"

definition availableWidth :: "printSettings \<Rightarrow> nat" where
  "availableWidth s = dim_width (paperSizes (paperSize s)) - margin s * 2"

definition availableHeight :: "printSettings \<Rightarrow> nat" where
  "availableHeight s = dim_height (paperSizes (paperSize s)) - margin s * 2"

record layout =
  cardsPerRow :: nat
  rowsPerPage :: nat
  cardsPerPage :: nat

text \<open>
  \<^verbatim>\<open>Math.floor(a / b)\<close> on natural numbers with \<open>b > 0\<close> is \<open>a div b\<close>; the divisors
  below are at least 18.
\<close>

definition calculateLayout :: "Deck \<Rightarrow> printSettings \<Rightarrow> layout" where
  "calculateLayout deck s =
     (let cardSize = cardSizes deck (cardSize s);
          cardsPerRow = availableWidth s div (dim_width cardSize + 18);
          rowsPerPage = availableHeight s div (dim_height cardSize + 18);
          cardsPerPage = cardsPerRow * rowsPerPage
      in \<lparr>cardsPerRow = cardsPerRow, rowsPerPage = rowsPerPage,
          cardsPerPage = cardsPerPage\<rparr>)"

datatype page_type = Front | Back

record Page =
  page_type :: page_type
  cards :: "Card list"

text \<open>\<^verbatim>\<open>xs.slice(a, b)\<close> for indices \<open>0 \<le> a\<close>, \<open>0 \<le> b\<close>.\<close>

definition slice :: "'a list \<Rightarrow> nat \<Rightarrow> nat \<Rightarrow> 'a list" where
  "slice xs a b = take (b - a) (drop a xs)"

text \<open>
  The loop \<^verbatim>\<open>for (let i = 0; i < cards.length; i += cardsPerPage) pages.push(...)\<close>,
  from a given \<open>i\<close> and \<open>pages\<close>. The source has no bound on the iterations, so the
  loop is a partial function: \<open>None\<close> is a loop that never exits.
\<close>

partial_function (option) pagesLoop ::
  "page_type \<Rightarrow> Card list \<Rightarrow> nat \<Rightarrow> nat \<Rightarrow> Page list \<Rightarrow> Page list option" where
  "pagesLoop t cs k i pages =
     (if i < length cs
      then pagesLoop t cs k (i + k) (pages @ [\<lparr>page_type = t, cards = slice cs i (i + k)\<rparr>])
      else Some pages)"

declare pagesLoop.simps [code]

definition generatePrintPages :: "Deck \<Rightarrow> Card list \<Rightarrow> printSettings \<Rightarrow> Page list option" where
  "generatePrintPages deck cs s =
     (let k = cardsPerPage (calculateLayout deck s) in
      do {
        pages \<leftarrow> pagesLoop Front cs k 0 [];
        if includeBack s then pagesLoop Back cs k 0 pages else Some pages
      })"

text \<open>
  The specification's wording of the pagination, for comparison with the loop: the
  cards, in their order, cut into consecutive chunks of \<open>k\<close> cards, each chunk one page
  with the given tag.
\<close>

function partitionPages :: "page_type \<Rightarrow> nat \<Rightarrow> Card list \<Rightarrow> Page list" where
  "partitionPages t k xs =
     (if xs = [] \<or> k = 0 then []
      else \<lparr>page_type = t, cards = take k xs\<rparr> # partitionPages t k (drop k xs))"
  by pat_completeness auto
termination
  by (relation "measure (\<lambda>(t, k, xs). length xs)") auto

declare partitionPages.simps [simp del]

section \<open>The card editor (component CardEditor)\<close>

text \<open>
  The component mutates the object behind its \<^verbatim>\<open>card\<close> prop in place
  (\<^verbatim>\<open>Object.assign(card, ...)\<close>) and stores references to card objects in its history
  array, so card objects live in an explicit store: \<open>objects\<close> is the list of all card
  objects allocated so far, and a reference is an index into it. A spread expression
  \<^verbatim>\<open>{...card, ...}\<close> allocates a new object at the end of the store. Content objects
  and element arrays are never written in place by the component (every change builds a
  new one), so they are plain values inside a card object.

  Each handler is a function from the component's state to its next state. The handlers
  are closures of the last render: the state values they see are the current ones, since
  every change of a state value is followed by a render, but the constant
  \<^verbatim>\<open>currentContent\<close> is the active side of the card as it was when the component last
  rendered. It is the field \<open>currentContent\<close> of the state; \<open>render\<close> computes it anew.
  A handler that calls a state setter with a changed value (a new array or object always
  counts as changed) ends with \<open>render\<close>; \<^verbatim>\<open>updateElement\<close> calls no setter, so after it
  the handlers still see the old \<open>currentContent\<close>, while \<^verbatim>\<open>{...card}\<close> reads the card
  as it is now. \<^verbatim>\<open>Date.now()\<close> is a parameter of the handlers that call it.
\<close>

type_synonym ref = nat

datatype side = SideFront | SideBack

record editor =
  objects :: "Card list"
  card :: ref
  currentSide :: side
  selectedElement :: "string option"
  isDragging :: bool
  dragOffset :: "int \<times> int"
  history :: "ref list"
  historyIndex :: nat
  currentContent :: CardContent

definition theCard :: "editor \<Rightarrow> Card" where
  "theCard e = objects e ! card e"

text \<open>The active side of the card as it is now.\<close>

definition activeContent :: "editor \<Rightarrow> CardContent" where
  "activeContent e =
     (if currentSide e = SideFront then front_content (theCard e) else back_content (theCard e))"

text \<open>
  A render: \<^verbatim>\<open>const currentContent = currentSide === 'front' ? card.front_content :
  card.back_content\<close>.
\<close>

definition render :: "editor \<Rightarrow> editor" where
  "render e = e\<lparr>currentContent := activeContent e\<rparr>"

text \<open>
  \<^verbatim>\<open>useState\<close> initial values and the first render: the history starts as \<^verbatim>\<open>[card]\<close>,
  the prop itself.
\<close>

definition initEditor :: "Card \<Rightarrow> editor" where
  "initEditor c =
     render \<lparr>objects = [c], card = 0, currentSide = SideFront, selectedElement = None,
       isDragging = False, dragOffset = (0, 0), history = [0], historyIndex = 0,
       currentContent = front_content c\<rparr>"

text \<open>The buttons Front and Back: \<^verbatim>\<open>setCurrentSide(sd)\<close>.\<close>

definition setCurrentSide :: "editor \<Rightarrow> side \<Rightarrow> editor" where
  "setCurrentSide e sd = (if currentSide e = sd then e else render (e\<lparr>currentSide := sd\<rparr>))"

text \<open>\<^verbatim>\<open>{...card, [currentSide === 'front' ? 'front_content' : 'back_content']: c}\<close>\<close>

definition withContent :: "side \<Rightarrow> CardContent \<Rightarrow> Card \<Rightarrow> Card" where
  "withContent sd c v =
     (if sd = SideFront then v\<lparr>front_content := c\<rparr> else v\<lparr>back_content := c\<rparr>)"

text \<open>A new object: the store grows by one, the reference is the old length.\<close>

definition alloc :: "editor \<Rightarrow> Card \<Rightarrow> editor \<times> ref" where
  "alloc e v = (e\<lparr>objects := objects e @ [v]\<rparr>, length (objects e))"

text \<open>
  \<^verbatim>\<open>Object.assign(target, source)\<close> on two card objects copies every field of the source
  into the target; a source that is \<^verbatim>\<open>undefined\<close> (a reference outside the store) is
  skipped.
\<close>

definition objectAssign :: "editor \<Rightarrow> ref \<Rightarrow> ref \<Rightarrow> editor" where
  "objectAssign e target source =
     (if source < length (objects e) \<and> target < length (objects e)
      then e\<lparr>objects := (objects e)[target := objects e ! source]\<rparr>
      else e)"

definition addToHistory :: "editor \<Rightarrow> ref \<Rightarrow> editor" where
  "addToHistory e newCard =
     (let newHistory = take (historyIndex e + 1) (history e) @ [newCard]
      in e\<lparr>history := newHistory, historyIndex := length newHistory - 1\<rparr>)"

definition undo :: "editor \<Rightarrow> editor" where
  "undo e =
     (if historyIndex e > 0
      then let e1 = e\<lparr>historyIndex := historyIndex e - 1\<rparr>
           in render (if historyIndex e - 1 < length (history e)
                      then objectAssign e1 (card e) (history e ! (historyIndex e - 1))
                      else e1)
      else e)"

definition redo :: "editor \<Rightarrow> editor" where
  "redo e =
     (if historyIndex e < length (history e) - 1
      then let e1 = e\<lparr>historyIndex := historyIndex e + 1\<rparr>
           in render (objectAssign e1 (card e) (history e ! (historyIndex e + 1)))
      else e)"

text \<open>The decimal digits of a natural number, as the template literal prints it.\<close>

definition digitChar :: "nat \<Rightarrow> char" where
  "digitChar d = ''0123456789'' ! d"

fun decimal :: "nat \<Rightarrow> string" where
  "decimal n = (if n < 10 then [digitChar n] else decimal (n div 10) @ [digitChar (n mod 10)])"

declare decimal.simps [simp del]

text \<open>\<^verbatim>\<open>`element-${Date.now()}`\<close>\<close>

definition newElementId :: "nat \<Rightarrow> string" where
  "newElementId now = ''element-'' @ decimal now"

definition addElement :: "editor \<Rightarrow> element_type \<Rightarrow> string option \<Rightarrow> nat \<Rightarrow> editor" where
  "addElement e ty shapeType now =
     (let newElement =
            \<lparr>element_id = newElementId now,
             element_type = ty,
             content = (if ty = Text then ''New Text''
                        else if ty = Image then []
                        else (case shapeType of
                                None \<Rightarrow> ''rectangle''
                              | Some st \<Rightarrow> if st = [] then ''rectangle'' else st)),
             x = 50,
             y = 50,
             width = Some (if ty = Text then 200 else 100),
             height = Some (if ty = Text then 30 else 100),
             fontSize = Some 16,
             fontFamily = Some ''Inter'',
             fontWeight = None,
             color = Some ''#000000'',
             backgroundColor = Some (if ty = Shape then ''#e5e7eb'' else ''transparent''),
             rotation = Some 0,
             zIndex = Some (int (length (elements (currentContent e))) + 1)\<rparr>;
          updatedCard =
            withContent (currentSide e)
              ((currentContent e)\<lparr>elements := elements (currentContent e) @ [newElement]\<rparr>)
              (theCard e);
          (e1, r) = alloc e updatedCard;
          e2 = addToHistory e1 r;
          e3 = objectAssign e2 (card e) r
      in render (e3\<lparr>selectedElement := Some (element_id newElement)\<rparr>))"

text \<open>
  The argument \<^verbatim>\<open>updates: Partial<CardElement>\<close> is represented by the function
  \<^verbatim>\<open>el => ({...el, ...updates})\<close> it stands for. No state setter is called, so no render
  follows.
\<close>

definition updateElement :: "editor \<Rightarrow> string \<Rightarrow> (CardElement \<Rightarrow> CardElement) \<Rightarrow> editor" where
  "updateElement e elementId updates =
     (let updatedElements =
            map (\<lambda>el. if element_id el = elementId then updates el else el)
              (elements (currentContent e));
          updatedCard =
            withContent (currentSide e)
              ((currentContent e)\<lparr>elements := updatedElements\<rparr>) (theCard e);
          (e1, r) = alloc e updatedCard
      in objectAssign e1 (card e) r)"

definition deleteElement :: "editor \<Rightarrow> string \<Rightarrow> editor" where
  "deleteElement e elementId =
     (let updatedElements =
            filter (\<lambda>el. element_id el \<noteq> elementId) (elements (currentContent e));
          updatedCard =
            withContent (currentSide e)
              ((currentContent e)\<lparr>elements := updatedElements\<rparr>) (theCard e);
          (e1, r) = alloc e updatedCard;
          e2 = addToHistory e1 r;
          e3 = objectAssign e2 (card e) r
      in render (e3\<lparr>selectedElement := None\<rparr>))"

definition duplicateElement :: "editor \<Rightarrow> string \<Rightarrow> nat \<Rightarrow> editor" where
  "duplicateElement e elementId now =
     (case find (\<lambda>el. element_id el = elementId) (elements (currentContent e)) of
        None \<Rightarrow> e
      | Some element \<Rightarrow>
          let newElement =
                element\<lparr>element_id := newElementId now,
                        x := x element + 20,
                        y := y element + 20,
                        zIndex := Some (int (length (elements (currentContent e))) + 1)\<rparr>;
              updatedCard =
                withContent (currentSide e)
                  ((currentContent e)\<lparr>elements := elements (currentContent e) @ [newElement]\<rparr>)
                  (theCard e);
              (e1, r) = alloc e updatedCard;
              e2 = addToHistory e1 r;
              e3 = objectAssign e2 (card e) r
          in render (e3\<lparr>selectedElement := Some (element_id newElement)\<rparr>))"

text \<open>
  The pointer handlers. \<open>rect\<close> is the left and top of the canvas rectangle, \<open>None\<close> when
  \<^verbatim>\<open>canvasRef.current\<close> is not set. In \<^verbatim>\<open>isDragging && selectedElement\<close> the empty
  string counts as false. \<^verbatim>\<open>handleMouseDown\<close> is followed by a render when it has set a
  new drag offset or changed the selection or the dragging flag.
\<close>

definition handleMouseDown ::
  "editor \<Rightarrow> int \<Rightarrow> int \<Rightarrow> (int \<times> int) option \<Rightarrow> string \<Rightarrow> editor" where
  "handleMouseDown e clientX clientY rect elementId =
     (let e1 = e\<lparr>selectedElement := Some elementId, isDragging := True\<rparr>;
          e1' = (if selectedElement e = Some elementId \<and> isDragging e then e1 else render e1)
      in case find (\<lambda>el. element_id el = elementId) (elements (currentContent e)) of
           None \<Rightarrow> e1'
         | Some element \<Rightarrow>
             (case rect of
                None \<Rightarrow> e1'
              | Some (rleft, rtop) \<Rightarrow>
                  render
                    (e1\<lparr>dragOffset := (clientX - rleft - x element, clientY - rtop - y element)\<rparr>)))"

definition handleMouseMove :: "editor \<Rightarrow> int \<Rightarrow> int \<Rightarrow> (int \<times> int) option \<Rightarrow> editor" where
  "handleMouseMove e clientX clientY rect =
     (case selectedElement e of
        None \<Rightarrow> e
      | Some sel \<Rightarrow>
          if isDragging e \<and> sel \<noteq> []
          then (case rect of
                  None \<Rightarrow> e
                | Some (rleft, rtop) \<Rightarrow>
                    let newX = clientX - rleft - fst (dragOffset e);
                        newY = clientY - rtop - snd (dragOffset e)
                    in updateElement e sel (\<lambda>el. el\<lparr>x := newX, y := newY\<rparr>))
          else e)"

definition handleMouseUp :: "editor \<Rightarrow> editor" where
  "handleMouseUp e =
     (if isDragging e then render (addToHistory (e\<lparr>isDragging := False\<rparr>) (card e)) else e)"

text \<open>
  The states the component can be in: the card and every history entry are objects of
  the store, and the cursor is inside the history.
\<close>

definition wf_editor :: "editor \<Rightarrow> bool" where
  "wf_editor e \<longleftrightarrow>
     card e < length (objects e)
     \<and> list_all (\<lambda>r. r < length (objects e)) (history e)
     \<and> historyIndex e < length (history e)"

text \<open>
  A state in which the handlers see the card's active side as it is: a render has
  followed the last write to the card.
\<close>

definition rendered :: "editor \<Rightarrow> bool" where
  "rendered e \<longleftrightarrow> currentContent e = activeContent e"

text \<open>The ids of the elements of the card's active side, in order.\<close>

definition currentIds :: "editor \<Rightarrow> string list" where
  "currentIds e = map element_id (elements (activeContent e))"

section \<open>Sample data\<close>

definition emptyContent :: CardContent where
  "emptyContent = \<lparr>elements = [], content_backgroundColor = None, backgroundImage = None\<rparr>"

definition sampleCard :: "string \<Rightarrow> Card" where
  "sampleCard i =
     \<lparr>card_id = i, deck_id = ''deck-1'', title = None,
      front_content = emptyContent, back_content = emptyContent, position = 0,
      card_created_at = ''2024-01-01'', card_updated_at = ''2024-01-01''\<rparr>"

definition fiveCards :: "Card list" where
  "fiveCards = [sampleCard ''a'', sampleCard ''b'', sampleCard ''c'', sampleCard ''d'',
                sampleCard ''e'']"

definition sampleDeck :: "card_size \<Rightarrow> nat option \<Rightarrow> nat option \<Rightarrow> Deck" where
  "sampleDeck cs w h =
     \<lparr>deck_ident = ''deck-1'', name = ''Deck'', description = None, folder_id = None,
      owner_id = ''user-1'', is_shared = False, deck_card_size = cs,
      custom_width = w, custom_height = h,
      deck_created_at = ''2024-01-01'', deck_updated_at = ''2024-01-01''\<rparr>"

text \<open>The initial \<^verbatim>\<open>printSettings\<close> of the component for a deck.\<close>

definition initialSettings :: "Deck \<Rightarrow> printSettings" where
  "initialSettings deck =
     \<lparr>cardSize = deck_card_size deck, cardsPerPageSetting = 6, includeBack = True,
      paperSize = Letter, orientation = Portrait, margins = Normal\<rparr>"

definition frontOnly :: "Deck \<Rightarrow> printSettings" where
  "frontOnly deck = (initialSettings deck)\<lparr>includeBack := False\<rparr>"

text \<open>A deck of custom cards 600 points wide (and of the default height).\<close>

definition wideDeck :: Deck where
  "wideDeck = sampleDeck Custom (Some 600) None"

text \<open>
  Editor states reached from a fresh editor on a card with two empty sides: after one
  \<open>addElement\<close> at time 1000, and after two additions and one \<open>undo\<close>.
\<close>

definition afterAdd :: editor where
  "afterAdd = addElement (initEditor (sampleCard ''a'')) Text None 1000"

definition afterUndo :: editor where
  "afterUndo =
     undo (addElement (addElement (initEditor (sampleCard ''a'')) Text None 1000)
             Shape (Some ''circle'') 2000)"

text \<open>
  After \<open>afterAdd\<close>, the text of the new element is edited in the properties panel
  (\<open>updateElement\<close>, no render); then the editor is switched to the back side.
\<close>

definition afterEdit :: editor where
  "afterEdit = updateElement afterAdd ''element-1000'' (\<lambda>el. el\<lparr>content := ''hi''\<rparr>)"

definition afterEditBack :: editor where
  "afterEditBack = setCurrentSide afterEdit SideBack"

section \<open>Pagination: the loop and the partition\<close>

lemma partitionPages_Nil [simp]: "partitionPages t k [] = []"
  by (simp add: partitionPages.simps)

lemma partitionPages_step:
  "xs \<noteq> [] \<Longrightarrow> 0 < k \<Longrightarrow>
   partitionPages t k xs = \<lparr>page_type = t, cards = take k xs\<rparr> # partitionPages t k (drop k xs)"
  by (subst partitionPages.simps) simp

lemma pagesLoop_exit: "length cs \<le> i \<Longrightarrow> pagesLoop t cs k i pages = Some pages"
  by (subst pagesLoop.simps) simp

lemma pagesLoop_step:
  "i < length cs \<Longrightarrow>
   pagesLoop t cs k i pages =
   pagesLoop t cs k (i + k) (pages @ [\<lparr>page_type = t, cards = slice cs i (i + k)\<rparr>])"
  by (subst pagesLoop.simps) simp

lemma pagesLoop_partition:
  "0 < k \<Longrightarrow> pagesLoop t cs k i pages = Some (pages @ partitionPages t k (drop i cs))"
proof (induction "length cs - i" arbitrary: i pages rule: less_induct)
  case less
  show ?case
  proof (cases "i < length cs")
    case False
    then show ?thesis by (simp add: pagesLoop_exit)
  next
    case True
    from True less.prems have dec: "length cs - (i + k) < length cs - i" by arith
    from True have ne: "drop i cs \<noteq> []" by simp
    have dr: "drop (i + k) cs = drop k (drop i cs)" by (simp add: add.commute)
    have "pagesLoop t cs k i pages =
          pagesLoop t cs k (i + k) (pages @ [\<lparr>page_type = t, cards = slice cs i (i + k)\<rparr>])"
      using True by (rule pagesLoop_step)
    also have "\<dots> = Some ((pages @ [\<lparr>page_type = t, cards = slice cs i (i + k)\<rparr>])
                         @ partitionPages t k (drop (i + k) cs))"
      using dec less.prems by (rule less.hyps)
    also have "\<dots> = Some (pages @ partitionPages t k (drop i cs))"
      using ne less.prems by (simp add: partitionPages_step dr slice_def)
    finally show ?thesis .
  qed
qed

lemma pagesLoop_zero_stuck:
  assumes "pagesLoop t cs k i pages = Some res"
  shows "\<not> (k = 0 \<and> i < length cs)"
proof (rule pagesLoop.raw_induct
    [where P = "\<lambda>t cs k i pages res. \<not> (k = 0 \<and> i < length cs)", OF _ assms])
  fix f :: "page_type \<Rightarrow> Card list \<Rightarrow> nat \<Rightarrow> nat \<Rightarrow> Page list \<Rightarrow> Page list option"
  fix t' cs' k' i' pages' res'
  assume IH: "\<And>t cs k i pages res. f t cs k i pages = Some res \<Longrightarrow> \<not> (k = 0 \<and> i < length cs)"
  assume body: "(if i' < length cs'
      then f t' cs' k' (i' + k') (pages' @ [\<lparr>page_type = t', cards = slice cs' i' (i' + k')\<rparr>])
      else Some pages') = Some res'"
  show "\<not> (k' = 0 \<and> i' < length cs')"
  proof
    assume stuck: "k' = 0 \<and> i' < length cs'"
    with body have
      "f t' cs' k' (i' + k') (pages' @ [\<lparr>page_type = t', cards = slice cs' i' (i' + k')\<rparr>]) = Some res'"
      by simp
    then have "\<not> (k' = 0 \<and> i' + k' < length cs')" by (rule IH)
    with stuck show False by simp
  qed
qed

lemma concat_partitionPages:
  "0 < k \<Longrightarrow> concat (map cards (partitionPages t k xs)) = xs"
proof (induction t k xs rule: partitionPages.induct)
  case (1 t k xs)
  show ?case
  proof (cases "xs = []")
    case True
    then show ?thesis by simp
  next
    case False
    with "1.prems" "1.IH" show ?thesis by (simp add: partitionPages_step)
  qed
qed

lemma ceil_div_step:
  assumes "0 < k" "0 < (n::nat)"
  shows "Suc ((n - k + k - 1) div k) = (n + k - 1) div k"
proof -
  from assms obtain m where n: "n = Suc m" by (cases n) auto
  show ?thesis
  proof (cases "k \<le> n")
    case True
    then have a: "n - k + k - 1 = m" using n by arith
    have b: "n + k - 1 = m + k" using n by arith
    have "(m + k) div k = Suc (m div k)" using assms div_add_self2 [of k m] by simp
    then show ?thesis by (simp only: a b)
  next
    case False
    then have a: "n - k + k - 1 = k - 1" by arith
    have b: "n + k - 1 = m + k" using n by arith
    have "m < k" using False n by arith
    then have "(m + k) div k = Suc 0" using assms div_add_self2 [of k m] by simp
    moreover have "(k - 1) div k = 0" using assms by simp
    ultimately show ?thesis by (simp only: a b)
  qed
qed

lemma length_partitionPages:
  "0 < k \<Longrightarrow> length (partitionPages t k xs) = (length xs + k - 1) div k"
proof (induction t k xs rule: partitionPages.induct)
  case (1 t k xs)
  show ?case
  proof (cases "xs = []")
    case True
    then show ?thesis using "1.prems" by simp
  next
    case False
    then have pos: "0 < length xs" by simp
    from False "1.prems" have "\<not> (xs = [] \<or> k = 0)" by simp
    then have ih: "length (partitionPages t k (drop k xs)) = (length (drop k xs) + k - 1) div k"
      using "1.prems" by (rule "1.IH")
    have "length (partitionPages t k xs) = Suc (length (partitionPages t k (drop k xs)))"
      using False "1.prems" by (simp add: partitionPages_step)
    also have "\<dots> = Suc ((length xs - k + k - 1) div k)"
      unfolding ih by simp
    also have "\<dots> = (length xs + k - 1) div k"
      using "1.prems" pos by (rule ceil_div_step)
    finally show ?thesis .
  qed
qed

lemma nth_partitionPages:
  "0 < k \<Longrightarrow> j < length (partitionPages t k xs) \<Longrightarrow>
   partitionPages t k xs ! j = \<lparr>page_type = t, cards = take k (drop (j * k) xs)\<rparr>"
proof (induction t k xs arbitrary: j rule: partitionPages.induct)
  case (1 t k xs)
  show ?case
  proof (cases "xs = []")
    case True
    then show ?thesis using "1.prems" by simp
  next
    case False
    from False "1.prems" have guard: "\<not> (xs = [] \<or> k = 0)" by simp
    have unf: "partitionPages t k xs =
               \<lparr>page_type = t, cards = take k xs\<rparr> # partitionPages t k (drop k xs)"
      using False "1.prems"(1) by (rule partitionPages_step)
    show ?thesis
    proof (cases j)
      case 0
      then show ?thesis by (simp only: unf nth_Cons_0 mult_0 drop_0)
    next
      case (Suc j')
      from "1.prems"(2) have "j' < length (partitionPages t k (drop k xs))"
        by (simp only: unf Suc length_Cons Suc_less_eq)
      with guard "1.prems"(1)
      have ih: "partitionPages t k (drop k xs) ! j' =
            \<lparr>page_type = t, cards = take k (drop (j' * k) (drop k xs))\<rparr>"
        by (rule "1.IH")
      have "drop (j' * k) (drop k xs) = drop (j * k) xs"
        by (simp add: Suc add.commute)
      then show ?thesis by (simp only: unf Suc nth_Cons_Suc ih)
    qed
  qed
qed

section \<open>Layout and pagination: the claims\<close>

lemma generatePrintPages_pos:
  assumes "0 < cardsPerPage (calculateLayout deck s)"
  shows "generatePrintPages deck cs s =
         Some (partitionPages Front (cardsPerPage (calculateLayout deck s)) cs @
               (if includeBack s
                then partitionPages Back (cardsPerPage (calculateLayout deck s)) cs else []))"
  using assms by (simp add: generatePrintPages_def Let_def pagesLoop_partition)

lemma generatePrintPages_zero_capacity:
  assumes "cardsPerPage (calculateLayout deck s) = 0" and "cs \<noteq> []"
  shows "generatePrintPages deck cs s = None"
proof -
  have "pagesLoop Front cs 0 0 [] = None"
  proof (cases "pagesLoop Front cs 0 0 []")
    case None
    then show ?thesis .
  next
    case (Some res)
    then have "\<not> (0 = (0::nat) \<and> 0 < length cs)" by (rule pagesLoop_zero_stuck)
    with assms(2) show ?thesis by simp
  qed
  with assms(1) show ?thesis by (simp add: generatePrintPages_def)
qed

lemma partitionPages_fiveCards:
  "partitionPages t 2 fiveCards =
     [\<lparr>page_type = t, cards = [sampleCard ''a'', sampleCard ''b'']\<rparr>,
      \<lparr>page_type = t, cards = [sampleCard ''c'', sampleCard ''d'']\<rparr>,
      \<lparr>page_type = t, cards = [sampleCard ''e'']\<rparr>]"
  by (simp add: fiveCards_def partitionPages_step)

lemma layout_3x5_initial:
  "calculateLayout (sampleDeck Size3x5 w h) (initialSettings (sampleDeck Size3x5 w h))
   = \<lparr>cardsPerRow = 2, rowsPerPage = 1, cardsPerPage = 2\<rparr>"
  by (simp add: initialSettings_def sampleDeck_def calculateLayout_def cardSizes_def
      availableWidth_def availableHeight_def paperSizes_def margin_def Let_def)

lemma layout_3x5_frontOnly:
  "calculateLayout (sampleDeck Size3x5 w h) (frontOnly (sampleDeck Size3x5 w h))
   = \<lparr>cardsPerRow = 2, rowsPerPage = 1, cardsPerPage = 2\<rparr>"
  by (simp add: frontOnly_def initialSettings_def sampleDeck_def calculateLayout_def
      cardSizes_def availableWidth_def availableHeight_def paperSizes_def margin_def Let_def)

text \<open>
  C1. Zero capacity is not guarded. For a custom card 600 points wide on letter paper with
  normal margins \<open>cardsPerRow\<close> and \<open>cardsPerPage\<close> are 0, and with one card to print the
  loop of \<open>generatePrintPages\<close> never advances and never exits: there is no result and no
  report of a configuration conflict.
\<close>

theorem generatePrintPages_zero_capacity_diverges:
  "cardsPerRow (calculateLayout wideDeck (initialSettings wideDeck)) = 0
   \<and> cardsPerPage (calculateLayout wideDeck (initialSettings wideDeck)) = 0
   \<and> generatePrintPages wideDeck [sampleCard ''a''] (initialSettings wideDeck) = None"
proof -
  have zero: "calculateLayout wideDeck (initialSettings wideDeck)
              = \<lparr>cardsPerRow = 0, rowsPerPage = 1, cardsPerPage = 0\<rparr>"
    by (simp add: wideDeck_def initialSettings_def sampleDeck_def calculateLayout_def
        cardSizes_def or_default_def availableWidth_def availableHeight_def paperSizes_def
        margin_def Let_def)
  then have "cardsPerPage (calculateLayout wideDeck (initialSettings wideDeck)) = 0" by simp
  then have "generatePrintPages wideDeck [sampleCard ''a''] (initialSettings wideDeck) = None"
    by (rule generatePrintPages_zero_capacity) simp
  with zero show ?thesis by simp
qed

text \<open>
  C4. With card size 3x5, letter paper and normal margins, whatever the other settings
  and the deck: the card is 216 by 360, the available area 540 by 720, and the layout is
  2 cards per row, 1 row per page, 2 cards per page. For all settings the counts are the
  floor quotients of the available width and height by the card width and height plus the
  spacing of 18, and \<open>cardsPerPage\<close> is their product.
\<close>

theorem calculateLayout_3x5_letter_normal:
  "cardSizes deck Size3x5 = \<lparr>dim_width = 216, dim_height = 360\<rparr>
   \<and> availableWidth (s\<lparr>cardSize := Size3x5, paperSize := Letter, margins := Normal\<rparr>) = 540
   \<and> availableHeight (s\<lparr>cardSize := Size3x5, paperSize := Letter, margins := Normal\<rparr>) = 720
   \<and> calculateLayout deck (s\<lparr>cardSize := Size3x5, paperSize := Letter, margins := Normal\<rparr>)
       = \<lparr>cardsPerRow = 2, rowsPerPage = 1, cardsPerPage = 2\<rparr>
   \<and> cardsPerRow (calculateLayout deck s')
       = availableWidth s' div (dim_width (cardSizes deck (cardSize s')) + 18)
   \<and> rowsPerPage (calculateLayout deck s')
       = availableHeight s' div (dim_height (cardSizes deck (cardSize s')) + 18)
   \<and> cardsPerPage (calculateLayout deck s')
       = cardsPerRow (calculateLayout deck s') * rowsPerPage (calculateLayout deck s')"
  by (simp add: calculateLayout_def cardSizes_def availableWidth_def availableHeight_def
      paperSizes_def margin_def Let_def)

text \<open>
  C5. Without back sides and with a capacity \<open>k \<ge> 1\<close>, \<open>generatePrintPages\<close> returns, and
  its pages are the partition of the cards into consecutive chunks of \<open>k\<close>: there are
  \<open>\<lceil>n / k\<rceil>\<close> pages, page \<open>j\<close> is tagged front and holds the cards from position \<open>j * k\<close>
  on, \<open>k\<close> of them or as many as are left, and the pages laid end to end are the card list
  itself, so every card is on exactly one page, in the original order.
\<close>

theorem generatePrintPages_front_only:
  assumes "\<not> includeBack s"
    and "cardsPerPage (calculateLayout deck s) = k"
    and "0 < k"
  shows "\<exists>pages. generatePrintPages deck cs s = Some pages
     \<and> pages = partitionPages Front k cs
     \<and> length pages = (length cs + k - 1) div k
     \<and> (\<forall>j < length pages.
          page_type (pages ! j) = Front \<and> cards (pages ! j) = take k (drop (j * k) cs))
     \<and> concat (map cards pages) = cs"
proof -
  have "generatePrintPages deck cs s = Some (partitionPages Front k cs)"
    using assms generatePrintPages_pos [of deck s cs] by simp
  moreover have "length (partitionPages Front k cs) = (length cs + k - 1) div k"
    using assms(3) by (rule length_partitionPages)
  moreover have "\<forall>j < length (partitionPages Front k cs).
      page_type (partitionPages Front k cs ! j) = Front
      \<and> cards (partitionPages Front k cs ! j) = take k (drop (j * k) cs)"
    using assms(3) by (simp add: nth_partitionPages)
  moreover have "concat (map cards (partitionPages Front k cs)) = cs"
    using assms(3) by (rule concat_partitionPages)
  ultimately show ?thesis by blast
qed

theorem generatePrintPages_front_only_witness:
  "\<not> includeBack (frontOnly (sampleDeck Size3x5 None None))
   \<and> cardsPerPage (calculateLayout (sampleDeck Size3x5 None None)
        (frontOnly (sampleDeck Size3x5 None None))) = 2
   \<and> (0::nat) < 2
   \<and> generatePrintPages (sampleDeck Size3x5 None None) fiveCards
        (frontOnly (sampleDeck Size3x5 None None)) =
       Some [\<lparr>page_type = Front, cards = [sampleCard ''a'', sampleCard ''b'']\<rparr>,
             \<lparr>page_type = Front, cards = [sampleCard ''c'', sampleCard ''d'']\<rparr>,
             \<lparr>page_type = Front, cards = [sampleCard ''e'']\<rparr>]
   \<and> map (length \<circ> cards)
        (the (generatePrintPages (sampleDeck Size3x5 None None) fiveCards
           (frontOnly (sampleDeck Size3x5 None None))))
       = [2, 2, 1]"
proof -
  have h1: "\<not> includeBack (frontOnly (sampleDeck Size3x5 None None))"
    by (simp add: frontOnly_def)
  have h2: "cardsPerPage (calculateLayout (sampleDeck Size3x5 None None)
              (frontOnly (sampleDeck Size3x5 None None))) = 2"
    by (simp add: layout_3x5_frontOnly)
  have h3: "(0::nat) < 2" by simp
  from generatePrintPages_front_only [OF h1 h2 h3, of fiveCards]
  have "generatePrintPages (sampleDeck Size3x5 None None) fiveCards
          (frontOnly (sampleDeck Size3x5 None None)) =
        Some (partitionPages Front 2 fiveCards)"
    by blast
  with h1 h2 show ?thesis by (simp add: partitionPages_fiveCards)
qed

text \<open>
  C6. With back sides and a capacity \<open>k \<ge> 1\<close>, \<open>generatePrintPages\<close> returns the front
  pages followed by the back pages: with \<open>m = \<lceil>n / k\<rceil>\<close> there are \<open>2 * m\<close> pages, the
  first \<open>m\<close> tagged front and the last \<open>m\<close> tagged back, and back page \<open>j\<close> holds the same
  cards in the same order as front page \<open>j\<close>, the chunk of \<open>k\<close> cards from position \<open>j * k\<close>.
\<close>

theorem generatePrintPages_fronts_then_backs:
  assumes "includeBack s"
    and "cardsPerPage (calculateLayout deck s) = k"
    and "0 < k"
  shows "\<exists>pages. generatePrintPages deck cs s = Some pages
     \<and> pages = partitionPages Front k cs @ partitionPages Back k cs
     \<and> length pages = 2 * ((length cs + k - 1) div k)
     \<and> (\<forall>j < (length cs + k - 1) div k.
          page_type (pages ! j) = Front
          \<and> page_type (pages ! ((length cs + k - 1) div k + j)) = Back
          \<and> cards (pages ! j) = take k (drop (j * k) cs)
          \<and> cards (pages ! ((length cs + k - 1) div k + j)) = cards (pages ! j))"
proof -
  let ?m = "(length cs + k - 1) div k"
  let ?f = "partitionPages Front k cs"
  let ?b = "partitionPages Back k cs"
  have res: "generatePrintPages deck cs s = Some (?f @ ?b)"
    using assms generatePrintPages_pos [of deck s cs] by simp
  have lf: "length ?f = ?m" and lb: "length ?b = ?m"
    using assms(3) by (simp_all add: length_partitionPages)
  have "\<forall>j < ?m. page_type ((?f @ ?b) ! j) = Front
          \<and> page_type ((?f @ ?b) ! (?m + j)) = Back
          \<and> cards ((?f @ ?b) ! j) = take k (drop (j * k) cs)
          \<and> cards ((?f @ ?b) ! (?m + j)) = cards ((?f @ ?b) ! j)"
  proof (intro allI impI)
    fix j assume j: "j < ?m"
    have fj: "(?f @ ?b) ! j = ?f ! j" using j lf by (simp add: nth_append)
    have bj: "(?f @ ?b) ! (?m + j) = ?b ! j" using lf by (simp add: nth_append)
    have f: "?f ! j = \<lparr>page_type = Front, cards = take k (drop (j * k) cs)\<rparr>"
      using assms(3) j lf by (simp add: nth_partitionPages)
    have b: "?b ! j = \<lparr>page_type = Back, cards = take k (drop (j * k) cs)\<rparr>"
      using assms(3) j lb by (simp add: nth_partitionPages)
    show "page_type ((?f @ ?b) ! j) = Front
          \<and> page_type ((?f @ ?b) ! (?m + j)) = Back
          \<and> cards ((?f @ ?b) ! j) = take k (drop (j * k) cs)
          \<and> cards ((?f @ ?b) ! (?m + j)) = cards ((?f @ ?b) ! j)"
      by (simp only: fj bj f b) simp
  qed
  moreover have "length (?f @ ?b) = 2 * ?m" using lf lb by simp
  ultimately show ?thesis using res by blast
qed

theorem generatePrintPages_fronts_then_backs_witness:
  "includeBack (initialSettings (sampleDeck Size3x5 None None))
   \<and> cardsPerPage (calculateLayout (sampleDeck Size3x5 None None)
        (initialSettings (sampleDeck Size3x5 None None))) = 2
   \<and> (0::nat) < 2
   \<and> generatePrintPages (sampleDeck Size3x5 None None) fiveCards
        (initialSettings (sampleDeck Size3x5 None None)) =
       Some [\<lparr>page_type = Front, cards = [sampleCard ''a'', sampleCard ''b'']\<rparr>,
             \<lparr>page_type = Front, cards = [sampleCard ''c'', sampleCard ''d'']\<rparr>,
             \<lparr>page_type = Front, cards = [sampleCard ''e'']\<rparr>,
             \<lparr>page_type = Back, cards = [sampleCard ''a'', sampleCard ''b'']\<rparr>,
             \<lparr>page_type = Back, cards = [sampleCard ''c'', sampleCard ''d'']\<rparr>,
             \<lparr>page_type = Back, cards = [sampleCard ''e'']\<rparr>]"
proof -
  have h1: "includeBack (initialSettings (sampleDeck Size3x5 None None))"
    by (simp add: initialSettings_def)
  have h2: "cardsPerPage (calculateLayout (sampleDeck Size3x5 None None)
              (initialSettings (sampleDeck Size3x5 None None))) = 2"
    by (simp add: layout_3x5_initial)
  have h3: "(0::nat) < 2" by simp
  from generatePrintPages_fronts_then_backs [OF h1 h2 h3, of fiveCards]
  have "generatePrintPages (sampleDeck Size3x5 None None) fiveCards
          (initialSettings (sampleDeck Size3x5 None None)) =
        Some (partitionPages Front 2 fiveCards @ partitionPages Back 2 fiveCards)"
    by blast
  with h1 h2 show ?thesis by (simp add: partitionPages_fiveCards)
qed

text \<open>
  C8. For the empty card list \<open>generatePrintPages\<close> returns the empty page list, for all
  settings (so for every capacity of at least 1): both loops exit at once.
\<close>

theorem generatePrintPages_empty:
  "generatePrintPages deck [] s = Some []"
  by (simp add: generatePrintPages_def pagesLoop_exit)

text \<open>
  C9. Two settings that differ in the orientation only have the same layout and the same
  pages: neither \<open>calculateLayout\<close> nor \<open>generatePrintPages\<close> reads the orientation.
\<close>

theorem orientation_ignored:
  "calculateLayout deck (s\<lparr>orientation := orient\<rparr>) = calculateLayout deck s
   \<and> generatePrintPages deck cs (s\<lparr>orientation := orient\<rparr>) = generatePrintPages deck cs s"
  by (simp add: generatePrintPages_def calculateLayout_def availableWidth_def
      availableHeight_def margin_def)

section \<open>The editor: renders, store, history and element ids\<close>

lemmas editor_defs = alloc_def addToHistory_def objectAssign_def theCard_def
  activeContent_def withContent_def Let_def currentIds_def

text \<open>What a render changes, and what it keeps.\<close>

lemma render_fields [simp]:
  "objects (render e) = objects e" "card (render e) = card e"
  "currentSide (render e) = currentSide e" "selectedElement (render e) = selectedElement e"
  "isDragging (render e) = isDragging e" "dragOffset (render e) = dragOffset e"
  "history (render e) = history e" "historyIndex (render e) = historyIndex e"
  "currentContent (render e) = activeContent e"
  by (simp_all add: render_def)

lemma render_card [simp]: "theCard (render e) = theCard e"
  by (simp add: theCard_def)

lemma render_active [simp]: "activeContent (render e) = activeContent e"
  by (simp add: activeContent_def)

lemma render_ids [simp]: "currentIds (render e) = currentIds e"
  by (simp add: currentIds_def)

lemma rendered_render [simp]: "rendered (render e)"
  by (simp add: rendered_def)

lemma wf_render [simp]: "wf_editor (render e) = wf_editor e"
  by (simp add: wf_editor_def)

lemma render_rendered: "rendered e \<Longrightarrow> render e = e"
  by (simp add: rendered_def render_def)

lemma newElementId_1000: "newElementId 1000 = ''element-1000''"
  by (simp add: newElementId_def decimal.simps digitChar_def)

lemma wf_initEditor: "wf_editor (initEditor c)"
  by (simp add: initEditor_def) (simp add: wf_editor_def)

lemma rendered_initEditor: "rendered (initEditor c)"
  by (simp add: initEditor_def)

lemma wf_commit:
  assumes "wf_editor e"
  shows "wf_editor (objectAssign (addToHistory (fst (alloc e v)) (snd (alloc e v))) (card e) (snd (alloc e v)) \<lparr>selectedElement := sel\<rparr>)"
  using assms
  by (auto simp: wf_editor_def editor_defs list_all_iff dest!: in_set_takeD)

lemma wf_addElement: "wf_editor e \<Longrightarrow> wf_editor (addElement e ty sh now)"
  using wf_commit by (simp add: addElement_def Let_def split_def)

lemma wf_deleteElement: "wf_editor e \<Longrightarrow> wf_editor (deleteElement e i)"
  using wf_commit by (simp add: deleteElement_def Let_def split_def)

lemma wf_duplicateElement: "wf_editor e \<Longrightarrow> wf_editor (duplicateElement e i now)"
  using wf_commit by (simp add: duplicateElement_def Let_def split_def split: option.splits)

lemma wf_updateElement: "wf_editor e \<Longrightarrow> wf_editor (updateElement e i f)"
  by (auto simp: wf_editor_def updateElement_def alloc_def objectAssign_def Let_def list_all_iff)

lemma wf_setCurrentSide: "wf_editor e \<Longrightarrow> wf_editor (setCurrentSide e sd)"
  by (simp add: setCurrentSide_def) (simp add: wf_editor_def)

lemma wf_addToHistory:
  "wf_editor e \<Longrightarrow> r < length (objects e) \<Longrightarrow> wf_editor (addToHistory e r)"
  by (auto simp: wf_editor_def addToHistory_def Let_def list_all_iff dest!: in_set_takeD)

lemma wf_handleMouseUp: "wf_editor e \<Longrightarrow> wf_editor (handleMouseUp e)"
  by (auto simp: wf_editor_def handleMouseUp_def addToHistory_def Let_def list_all_iff dest!: in_set_takeD)

lemma wf_undo: "wf_editor e \<Longrightarrow> wf_editor (undo e)"
  by (auto simp: undo_def Let_def) (auto simp: wf_editor_def objectAssign_def)

lemma wf_redo: "wf_editor e \<Longrightarrow> wf_editor (redo e)"
  by (auto simp: redo_def Let_def) (auto simp: wf_editor_def objectAssign_def)

lemma rendered_addElement: "rendered (addElement e ty sh now)"
  by (simp add: addElement_def Let_def split_def)

lemma rendered_deleteElement: "rendered (deleteElement e i)"
  by (simp add: deleteElement_def Let_def split_def)

lemma rendered_duplicateElement: "rendered e \<Longrightarrow> rendered (duplicateElement e i now)"
  by (simp add: duplicateElement_def Let_def split_def split: option.splits)

lemma rendered_setCurrentSide: "rendered e \<Longrightarrow> rendered (setCurrentSide e sd)"
  by (simp add: setCurrentSide_def)

lemma rendered_undo: "rendered e \<Longrightarrow> rendered (undo e)"
  by (simp add: undo_def Let_def)

lemma rendered_redo: "rendered e \<Longrightarrow> rendered (redo e)"
  by (simp add: redo_def Let_def)

lemma rendered_handleMouseUp: "rendered e \<Longrightarrow> rendered (handleMouseUp e)"
  by (simp add: handleMouseUp_def)

lemma commit_card:
  assumes "wf_editor e"
  shows "theCard (objectAssign (addToHistory (fst (alloc e v)) (snd (alloc e v))) (card e)
           (snd (alloc e v)) \<lparr>selectedElement := sel\<rparr>) = v"
  using assms by (simp add: editor_defs wf_editor_def nth_append)

lemma commit_side:
  "currentSide (objectAssign (addToHistory (fst (alloc e v)) (snd (alloc e v))) (card e)
           (snd (alloc e v)) \<lparr>selectedElement := sel\<rparr>) = currentSide e"
  by (simp add: editor_defs)

lemma commit_history:
  "history (objectAssign (addToHistory (fst (alloc e v)) (snd (alloc e v))) (card e)
           (snd (alloc e v)) \<lparr>selectedElement := sel\<rparr>)
     = take (historyIndex e + 1) (history e) @ [length (objects e)]
   \<and> historyIndex (objectAssign (addToHistory (fst (alloc e v)) (snd (alloc e v))) (card e)
           (snd (alloc e v)) \<lparr>selectedElement := sel\<rparr>)
     = length (take (historyIndex e + 1) (history e))"
  by (simp add: editor_defs)

lemma commit_objects:
  assumes "wf_editor e"
  shows "objects (objectAssign (addToHistory (fst (alloc e v)) (snd (alloc e v))) (card e)
           (snd (alloc e v)) \<lparr>selectedElement := sel\<rparr>)
     = (objects e)[card e := v] @ [v]"
  using assms by (simp add: editor_defs wf_editor_def nth_append list_update_append)

lemma commit_selected:
  "selectedElement (objectAssign (addToHistory (fst (alloc e v)) (snd (alloc e v))) (card e)
           (snd (alloc e v)) \<lparr>selectedElement := sel\<rparr>) = sel"
  by (simp add: editor_defs)

lemma addElement_ids_closure:
  assumes "wf_editor e"
  shows "currentIds (addElement e ty sh now)
         = map element_id (elements (currentContent e)) @ [newElementId now]"
  using assms
  by (simp add: addElement_def Let_def split_def currentIds_def activeContent_def
      commit_card commit_side withContent_def)

lemma deleteElement_ids_closure:
  assumes "wf_editor e"
  shows "currentIds (deleteElement e i)
         = filter (\<lambda>j. j \<noteq> i) (map element_id (elements (currentContent e)))"
  using assms
  by (simp add: deleteElement_def Let_def split_def currentIds_def activeContent_def
      commit_card commit_side withContent_def filter_map comp_def)

lemma find_element_id:
  "(find (\<lambda>el. element_id el = i) els = None) \<longleftrightarrow> i \<notin> set (map element_id els)"
  by (auto simp: find_None_iff)

lemma duplicateElement_ids_closure:
  assumes "wf_editor e"
  shows "currentIds (duplicateElement e i now) =
         (if i \<in> set (map element_id (elements (currentContent e)))
          then map element_id (elements (currentContent e)) @ [newElementId now]
          else currentIds e)"
proof (cases "find (\<lambda>el. element_id el = i) (elements (currentContent e))")
  case None
  then have "i \<notin> set (map element_id (elements (currentContent e)))"
    by (simp add: find_element_id)
  with None show ?thesis by (simp add: duplicateElement_def)
next
  case (Some el)
  then have "i \<in> set (map element_id (elements (currentContent e)))"
    using find_element_id [of i "elements (currentContent e)"] by simp
  with Some assms show ?thesis
    by (simp add: duplicateElement_def Let_def split_def currentIds_def activeContent_def
      commit_card commit_side withContent_def)
qed

lemma rendered_ids: "rendered e \<Longrightarrow> map element_id (elements (currentContent e)) = currentIds e"
  by (simp add: rendered_def currentIds_def)

lemma addElement_ids:
  "wf_editor e \<Longrightarrow> rendered e \<Longrightarrow>
   currentIds (addElement e ty sh now) = currentIds e @ [newElementId now]"
  by (simp add: addElement_ids_closure rendered_ids)

lemma deleteElement_ids:
  "wf_editor e \<Longrightarrow> rendered e \<Longrightarrow>
   currentIds (deleteElement e i) = filter (\<lambda>j. j \<noteq> i) (currentIds e)"
  by (simp add: deleteElement_ids_closure rendered_ids)

lemma duplicateElement_ids:
  "wf_editor e \<Longrightarrow> rendered e \<Longrightarrow>
   currentIds (duplicateElement e i now) =
     (if i \<in> set (currentIds e) then currentIds e @ [newElementId now] else currentIds e)"
  by (simp add: duplicateElement_ids_closure rendered_ids)

text \<open>
  With an id that is not yet on the active side, the three operations keep the ids of
  the side distinct, in a state in which the handlers see the card as it is.
\<close>

lemma fresh_id_keeps_distinct:
  assumes "wf_editor e" and "rendered e" and "distinct (currentIds e)"
    and "newElementId now \<notin> set (currentIds e)"
  shows "distinct (currentIds (addElement e ty sh now))"
    and "distinct (currentIds (duplicateElement e i now))"
    and "distinct (currentIds (deleteElement e i))"
  using assms by (simp_all add: addElement_ids duplicateElement_ids deleteElement_ids)


lemma initEditor_facts:
  "card (initEditor c) = 0" "objects (initEditor c) = [c]" "history (initEditor c) = [0]"
  "historyIndex (initEditor c) = 0" "currentSide (initEditor c) = SideFront"
  "theCard (initEditor c) = c"
  by (simp_all add: initEditor_def) (simp add: theCard_def)

lemma afterAdd_facts:
  "objects afterAdd = [theCard afterAdd, theCard afterAdd]"
  "card afterAdd = 0" "history afterAdd = [0, 1]" "historyIndex afterAdd = 1"
  "currentSide afterAdd = SideFront"
  by (simp_all add: afterAdd_def addElement_def initEditor_def editor_defs)

lemma sampleCard_ids: "map element_id (elements (front_content (sampleCard i))) = []"
  by (simp add: sampleCard_def emptyContent_def)

lemma initEditor_ids: "currentIds (initEditor (sampleCard i)) = []"
  by (simp add: currentIds_def activeContent_def initEditor_facts sampleCard_ids)

lemma afterAdd_ids: "currentIds afterAdd = [''element-1000'']"
  unfolding afterAdd_def
  by (simp add: addElement_ids wf_initEditor rendered_initEditor newElementId_1000 initEditor_ids)

lemma wf_afterAdd: "wf_editor afterAdd"
  unfolding afterAdd_def by (intro wf_addElement wf_initEditor)

lemma rendered_afterAdd: "rendered afterAdd"
  unfolding afterAdd_def by (rule rendered_addElement)

text \<open>
  C2. Undo right after a commit does not always restore the preceding document. The
  history starts with the card object itself, and \<open>addElement\<close> writes the new state into
  that object; on a fresh editor, after one \<open>addElement\<close>, entry 0 of the history is the card
  and no longer holds the loaded card, and \<open>undo\<close> moves the cursor back to 0 but leaves
  the card as it was after the addition, with the new element still on its front side.
\<close>

theorem undo_after_first_commit_restores_nothing:
  "historyIndex afterAdd = 1
   \<and> historyIndex (undo afterAdd) = 0
   \<and> history afterAdd ! 0 = card afterAdd
   \<and> theCard (undo afterAdd) = theCard afterAdd
   \<and> currentIds (undo afterAdd) = [''element-1000'']
   \<and> currentIds (initEditor (sampleCard ''a'')) = []
   \<and> theCard (undo afterAdd) \<noteq> theCard (initEditor (sampleCard ''a''))
   \<and> objects afterAdd ! (history afterAdd ! 0) \<noteq> sampleCard ''a''"
proof -
  have u: "undo afterAdd = render (afterAdd\<lparr>historyIndex := 0\<rparr>)"
    by (simp add: undo_def objectAssign_def Let_def afterAdd_facts(2-5))
  have c: "theCard (undo afterAdd) = theCard afterAdd"
    by (simp add: u) (simp add: theCard_def)
  have "activeContent (undo afterAdd) = activeContent afterAdd"
    by (simp add: u) (simp add: activeContent_def theCard_def)
  then have i: "currentIds (undo afterAdd) = [''element-1000'']"
    using afterAdd_ids by (simp add: currentIds_def)
  have i0: "currentIds (initEditor (sampleCard ''a'')) = []"
    by (rule initEditor_ids)
  have ne: "theCard afterAdd \<noteq> sampleCard ''a''"
  proof
    assume "theCard afterAdd = sampleCard ''a''"
    then have "map element_id (elements (front_content (theCard afterAdd))) = []"
      by (simp add: sampleCard_ids)
    with afterAdd_ids show False
      by (simp add: currentIds_def activeContent_def afterAdd_facts(5))
  qed
  have al: "objects afterAdd ! (history afterAdd ! 0) = theCard afterAdd"
    by (simp add: theCard_def afterAdd_facts(2,3))
  show ?thesis
    using c i i0 ne al by (simp add: afterAdd_facts(2-5) u initEditor_facts)
qed

text \<open>
  C3. Element ids are not always unique. Starting from a side with no elements, two
  \<open>addElement\<close> calls for which \<^verbatim>\<open>Date.now()\<close> gives the same value put two elements with
  the same id on the active side.
\<close>

theorem addElement_same_millisecond_duplicates:
  "currentIds (addElement afterAdd Text None 1000) = [''element-1000'', ''element-1000'']
   \<and> distinct (currentIds (initEditor (sampleCard ''a'')))
   \<and> \<not> distinct (currentIds (addElement afterAdd Text None 1000))"
proof -
  have "currentIds (addElement afterAdd Text None 1000) = [''element-1000'', ''element-1000'']"
    by (simp add: addElement_ids [OF wf_afterAdd rendered_afterAdd] afterAdd_ids newElementId_1000)
  moreover have "currentIds (initEditor (sampleCard ''a'')) = []"
    by (rule initEditor_ids)
  ultimately show ?thesis by simp
qed

lemma undo_card:
  assumes "wf_editor e" and "0 < historyIndex e"
  shows "theCard (undo e) = objects e ! (history e ! (historyIndex e - 1))"
proof -
  from assms(1) have "historyIndex e < length (history e)"
    by (simp add: wf_editor_def)
  then have inr: "historyIndex e - 1 < length (history e)"
    by arith
  with assms(1) have "history e ! (historyIndex e - 1) < length (objects e)"
    unfolding wf_editor_def list_all_length by blast
  moreover from assms(1) have "card e < length (objects e)"
    by (simp add: wf_editor_def)
  ultimately show ?thesis
    using assms(2) inr by (simp add: undo_def Let_def) (simp add: objectAssign_def theCard_def)
qed

lemma undo_alias_noop:
  assumes "history e ! (historyIndex e - 1) = card e"
  shows "theCard (undo e) = theCard e"
  using assms by (simp add: undo_def Let_def) (simp add: objectAssign_def theCard_def)

lemma handleMouseUp_pushes_card:
  assumes "isDragging e"
  shows "last (history (handleMouseUp e)) = card e"
  using assms by (simp add: handleMouseUp_def addToHistory_def Let_def)

lemma redo_at_end:
  assumes "historyIndex e = length (history e) - 1"
  shows "redo e = e"
  using assms by (simp add: redo_def)

text \<open>
  C7. When the cursor is before the last index, a commit keeps the entries up to the
  cursor, drops all entries after it and appends the new snapshot; the history is then
  two longer than the old cursor and no longer than before, the cursor is its last index,
  the only entry beyond the old cursor is the new snapshot, and \<open>redo\<close> does nothing. The
  same holds for \<open>redo\<close> after \<open>addElement\<close> and \<open>deleteElement\<close>, which commit.
\<close>

theorem commit_discards_redo:
  assumes "historyIndex e < length (history e) - 1"
  shows "history (addToHistory e r) = take (historyIndex e + 1) (history e) @ [r]
     \<and> length (history (addToHistory e r)) = historyIndex e + 2
     \<and> length (history (addToHistory e r)) \<le> length (history e)
     \<and> historyIndex (addToHistory e r) = length (history (addToHistory e r)) - 1
     \<and> drop (historyIndex e + 1) (history (addToHistory e r)) = [r]
     \<and> \<not> historyIndex (addToHistory e r) < length (history (addToHistory e r)) - 1
     \<and> redo (addToHistory e r) = addToHistory e r
     \<and> redo (addElement e ty sh now) = addElement e ty sh now
     \<and> redo (deleteElement e i) = deleteElement e i"
proof -
  from assms have len: "length (take (historyIndex e + 1) (history e)) = historyIndex e + 1"
    by simp
  have h: "history (addToHistory e r) = take (historyIndex e + 1) (history e) @ [r]"
    by (simp add: addToHistory_def Let_def)
  have l: "length (history (addToHistory e r)) = historyIndex e + 2"
    unfolding h using len by simp
  have le: "length (history (addToHistory e r)) \<le> length (history e)"
    unfolding l using assms by arith
  have c: "historyIndex (addToHistory e r) = length (history (addToHistory e r)) - 1"
    by (simp add: addToHistory_def Let_def)
  have d: "drop (historyIndex e + 1) (history (addToHistory e r)) = [r]"
    unfolding h using len by simp
  have r1: "redo (addToHistory e r) = addToHistory e r"
    using c by (rule redo_at_end)
  have r2: "redo (addElement e ty sh now) = addElement e ty sh now"
    by (rule redo_at_end) (simp add: addElement_def Let_def split_def commit_history)
  have r3: "redo (deleteElement e i) = deleteElement e i"
    by (rule redo_at_end) (simp add: deleteElement_def Let_def split_def commit_history)
  from h l le c d r1 r2 r3 show ?thesis by simp
qed

lemma afterUndo_facts:
  "history afterUndo = [0, 1, 2]" "historyIndex afterUndo = 1"
  by (simp_all add: afterUndo_def undo_def addElement_def initEditor_def editor_defs)

theorem commit_discards_redo_witness:
  "historyIndex afterUndo < length (history afterUndo) - 1
   \<and> history afterUndo = [0, 1, 2]
   \<and> history (addToHistory afterUndo 3) = [0, 1, 3]
   \<and> historyIndex (addToHistory afterUndo 3) = 2
   \<and> redo (addToHistory afterUndo 3) = addToHistory afterUndo 3"
proof -
  have h: "historyIndex afterUndo < length (history afterUndo) - 1"
    by (simp add: afterUndo_facts)
  from commit_discards_redo [OF h, of 3] h show ?thesis
    by (simp add: afterUndo_facts)
qed


text \<open>The sample states after the edit of the text and after the switch to the back side.\<close>

lemma afterAdd_front:
  "map content (elements (front_content (theCard afterAdd))) = [''New Text'']"
  "map element_id (elements (front_content (theCard afterAdd))) = [''element-1000'']"
  "elements (back_content (theCard afterAdd)) = []"
  by (simp_all add: afterAdd_def addElement_def initEditor_def editor_defs render_def
      sampleCard_def emptyContent_def newElementId_1000)

lemma afterAdd_closure: "currentContent afterAdd = front_content (theCard afterAdd)"
  using rendered_afterAdd by (simp add: rendered_def activeContent_def afterAdd_facts(5))

lemma afterEdit_facts:
  "card afterEdit = 0" "history afterEdit = [0, 1]" "historyIndex afterEdit = 1"
  "currentSide afterEdit = SideFront" "length (objects afterEdit) = 3"
  "currentContent afterEdit = front_content (theCard afterAdd)"
  "objects afterEdit ! Suc 0 = theCard afterAdd"
  "selectedElement afterEdit = selectedElement afterAdd"
  unfolding afterEdit_def updateElement_def
  by (simp_all add: alloc_def objectAssign_def Let_def afterAdd_facts(2-5) afterAdd_closure)
     (simp_all add: afterAdd_facts(1))

lemma wf_afterEdit: "wf_editor afterEdit"
  unfolding afterEdit_def by (intro wf_updateElement wf_afterAdd)

lemma afterEdit_front:
  "map content (elements (front_content (theCard afterEdit))) = [''hi'']"
  "map element_id (elements (front_content (theCard afterEdit))) = [''element-1000'']"
  "elements (back_content (theCard afterEdit)) = []"
proof -
  have c: "theCard afterEdit =
        (theCard afterAdd)\<lparr>front_content := (front_content (theCard afterAdd))
           \<lparr>elements := map (\<lambda>el. if element_id el = ''element-1000'' then el\<lparr>content := ''hi''\<rparr> else el)
               (elements (front_content (theCard afterAdd)))\<rparr>\<rparr>"
    unfolding afterEdit_def updateElement_def
    by (simp add: alloc_def objectAssign_def Let_def theCard_def withContent_def
        afterAdd_facts(2-5) afterAdd_closure)
  obtain el where el: "elements (front_content (theCard afterAdd)) = [el]"
    using afterAdd_front(1) by (cases "elements (front_content (theCard afterAdd))") auto
  with afterAdd_front(2) have "element_id el = ''element-1000''" by simp
  with el show "map content (elements (front_content (theCard afterEdit))) = [''hi'']"
    and "map element_id (elements (front_content (theCard afterEdit))) = [''element-1000'']"
    by (simp_all add: c)
  show "elements (back_content (theCard afterEdit)) = []"
    by (simp add: c afterAdd_front(3))
qed


lemma afterEdit_ids: "currentIds afterEdit = [''element-1000'']"
  by (simp add: currentIds_def activeContent_def afterEdit_facts(4) afterEdit_front(2))

lemma deleteElement_afterEdit:
  "map content (elements (activeContent (deleteElement afterEdit ''nope''))) = [''New Text'']"
proof -
  have keep: "filter (\<lambda>el. element_id el \<noteq> ''nope'') (elements (front_content (theCard afterAdd)))
              = elements (front_content (theCard afterAdd))"
    using afterAdd_front(2) by (auto simp: filter_id_conv)
  have "activeContent (deleteElement afterEdit ''nope'') = front_content (theCard afterAdd)"
    using wf_afterEdit
    by (simp add: deleteElement_def Let_def split_def activeContent_def commit_card commit_side
        withContent_def afterEdit_facts(4,6) keep)
  then show ?thesis by (simp add: afterAdd_front(1))
qed

lemma afterEditBack_facts:
  "afterEditBack = render (afterEdit\<lparr>currentSide := SideBack\<rparr>)"
  "card afterEditBack = 0" "history afterEditBack = [0, 1]" "historyIndex afterEditBack = 1"
  "currentSide afterEditBack = SideBack" "length (objects afterEditBack) = 3"
  "objects afterEditBack ! Suc 0 = theCard afterAdd"
  by (simp_all add: afterEditBack_def setCurrentSide_def afterEdit_facts)

lemma afterEditBack_card: "theCard afterEditBack = theCard afterEdit"
  by (simp add: afterEditBack_facts(1)) (simp add: theCard_def)

lemma wf_afterEditBack: "wf_editor afterEditBack"
  unfolding afterEditBack_def by (intro wf_setCurrentSide wf_afterEdit)

lemma rendered_afterEditBack: "rendered afterEditBack"
  by (simp add: afterEditBack_facts(1))

lemma afterEditBack_ids: "currentIds afterEditBack = []"
  by (simp add: currentIds_def activeContent_def afterEditBack_facts(5) afterEditBack_card
      afterEdit_front(3))

text \<open>
  C10, amended. In a state in which a render has followed the last write to the card, so
  that the handlers see the card's active side as it is, and for an id that no element of
  the active side has, \<open>deleteElement\<close> leaves the elements of the side and the whole card
  as they were, and still commits: the history gets a new snapshot object after the
  cursor, equal to the unchanged card, the cursor moves forward by one and the selection
  is cleared. When the entry at the old cursor holds the card's state at the call, the new
  entry and its predecessor in the history are equal.
\<close>

theorem deleteElement_absent_id_rendered:
  assumes "wf_editor e" and "rendered e" and "elementId \<notin> set (currentIds e)"
  shows "elements (activeContent (deleteElement e elementId)) = elements (activeContent e)
     \<and> theCard (deleteElement e elementId) = theCard e
     \<and> history (deleteElement e elementId)
         = take (historyIndex e + 1) (history e) @ [length (objects e)]
     \<and> historyIndex (deleteElement e elementId) = historyIndex e + 1
     \<and> objects (deleteElement e elementId) ! length (objects e) = theCard e
     \<and> selectedElement (deleteElement e elementId) = None
     \<and> (objects e ! (history e ! historyIndex e) = theCard e \<longrightarrow>
          objects (deleteElement e elementId)
            ! (history (deleteElement e elementId) ! historyIndex (deleteElement e elementId))
          = objects (deleteElement e elementId)
            ! (history (deleteElement e elementId) ! historyIndex e))"
proof -
  let ?e' = "deleteElement e elementId"
  from assms(2) have cc: "currentContent e = activeContent e"
    by (simp add: rendered_def)
  from assms(3) have keep:
    "filter (\<lambda>el. element_id el \<noteq> elementId) (elements (activeContent e))
     = elements (activeContent e)"
    by (auto simp: currentIds_def filter_id_conv)
  have same: "withContent (currentSide e) (activeContent e) (theCard e) = theCard e"
    by (simp add: withContent_def activeContent_def)
  have cd: "theCard ?e' = theCard e"
    using assms(1) by (simp add: deleteElement_def Let_def split_def commit_card cc keep same)
  have sd: "currentSide ?e' = currentSide e"
    by (simp add: deleteElement_def Let_def split_def commit_side)
  have el: "elements (activeContent ?e') = elements (activeContent e)"
    by (simp add: activeContent_def cd sd)
  from assms(1) have idx: "historyIndex e < length (history e)"
    by (simp add: wf_editor_def)
  then have len: "length (take (historyIndex e + 1) (history e)) = historyIndex e + 1"
    by simp
  have hs: "history ?e' = take (historyIndex e + 1) (history e) @ [length (objects e)]"
    by (simp add: deleteElement_def Let_def split_def commit_history)
  have hi: "historyIndex ?e' = historyIndex e + 1"
    using len by (simp add: deleteElement_def Let_def split_def commit_history)
  have ob: "objects ?e' = (objects e)[card e := theCard e] @ [theCard e]"
    using assms(1) by (simp add: deleteElement_def Let_def split_def commit_objects cc keep same)
  then have ob': "objects ?e' = objects e @ [theCard e]"
    by (simp add: theCard_def)
  have snap: "objects ?e' ! length (objects e) = theCard e"
    by (simp add: ob')
  have sel: "selectedElement ?e' = None"
    by (simp add: deleteElement_def Let_def split_def commit_selected)
  have new: "history ?e' ! historyIndex ?e' = length (objects e)"
    unfolding hs hi using len by (simp add: nth_append)
  have old: "history ?e' ! historyIndex e = history e ! historyIndex e"
    unfolding hs using idx by (simp add: nth_append)
  have valid: "history e ! historyIndex e < length (objects e)"
    using assms(1) idx unfolding wf_editor_def list_all_length by blast
  have pred: "objects e ! (history e ! historyIndex e) = theCard e \<longrightarrow>
      objects ?e' ! (history ?e' ! historyIndex ?e') = objects ?e' ! (history ?e' ! historyIndex e)"
    unfolding new old using valid by (simp add: ob' nth_append)
  from el cd hs hi snap sel pred show ?thesis by blast
qed

theorem deleteElement_absent_id_rendered_witness:
  "wf_editor afterAdd
   \<and> rendered afterAdd
   \<and> ''element-7'' \<notin> set (currentIds afterAdd)
   \<and> objects afterAdd ! (history afterAdd ! historyIndex afterAdd) = theCard afterAdd
   \<and> currentIds (deleteElement afterAdd ''element-7'') = [''element-1000'']
   \<and> history (deleteElement afterAdd ''element-7'') = [0, 1, 2]
   \<and> historyIndex (deleteElement afterAdd ''element-7'') = 2
   \<and> objects (deleteElement afterAdd ''element-7'') ! 2
       = objects (deleteElement afterAdd ''element-7'') ! 1
   \<and> selectedElement (deleteElement afterAdd ''element-7'') = None"
proof -
  have ab: "''element-7'' \<notin> set (currentIds afterAdd)" by (simp add: afterAdd_ids)
  have sync: "objects afterAdd ! (history afterAdd ! historyIndex afterAdd) = theCard afterAdd"
    by (subst afterAdd_facts(1)) (simp add: afterAdd_facts(2-5))
  have len: "length (objects afterAdd) = 2"
    by (subst afterAdd_facts(1)) simp
  let ?e' = "deleteElement afterAdd ''element-7''"
  note t = deleteElement_absent_id_rendered [OF wf_afterAdd rendered_afterAdd ab]
  from t have ids: "currentIds ?e' = [''element-1000'']"
    using afterAdd_ids by (simp add: currentIds_def)
  from t have hs: "history ?e' = [0, 1, 2]"
    by (simp add: afterAdd_facts(2-5) len)
  from t have hi: "historyIndex ?e' = 2"
    by (simp add: afterAdd_facts(2-5))
  from t sync have "objects ?e' ! (history ?e' ! historyIndex ?e')
      = objects ?e' ! (history ?e' ! historyIndex afterAdd)"
    by blast
  then have eq: "objects ?e' ! 2 = objects ?e' ! 1"
    by (simp add: hs hi afterAdd_facts(4))
  from t have sel: "selectedElement ?e' = None" by blast
  from wf_afterAdd rendered_afterAdd ab sync ids hs hi eq sel show ?thesis by blast
qed

text \<open>
  Both conditions are needed. After an \<open>updateElement\<close> that no render has followed,
  \<open>deleteElement\<close> with an absent id filters the elements of the last render and writes
  them back, so the edited text \<open>hi\<close> is \<open>New Text\<close> again. After the same edit and a switch
  to the back side (which renders), \<open>deleteElement\<close> with an absent id leaves the card as it
  is, but the snapshot it commits holds the edited text and its predecessor in the history
  does not.
\<close>

theorem deleteElement_absent_id_stale_counterexample:
  "wf_editor afterEdit
   \<and> ''nope'' \<notin> set (currentIds afterEdit)
   \<and> map content (elements (activeContent afterEdit)) = [''hi'']
   \<and> map content (elements (activeContent (deleteElement afterEdit ''nope''))) = [''New Text'']
   \<and> elements (activeContent (deleteElement afterEdit ''nope''))
       \<noteq> elements (activeContent afterEdit)
   \<and> wf_editor afterEditBack
   \<and> rendered afterEditBack
   \<and> ''nope'' \<notin> set (currentIds afterEditBack)
   \<and> history (deleteElement afterEditBack ''nope'') = [0, 1, 3]
   \<and> historyIndex (deleteElement afterEditBack ''nope'') = 2
   \<and> objects (deleteElement afterEditBack ''nope'') ! 3
       \<noteq> objects (deleteElement afterEditBack ''nope'') ! 1"
proof -
  have a1: "''nope'' \<notin> set (currentIds afterEdit)" by (simp add: afterEdit_ids)
  have a2: "map content (elements (activeContent afterEdit)) = [''hi'']"
    by (simp add: activeContent_def afterEdit_facts(4) afterEdit_front(1))
  note a3 = deleteElement_afterEdit
  from a2 a3 have a4: "elements (activeContent (deleteElement afterEdit ''nope''))
       \<noteq> elements (activeContent afterEdit)"
    by auto
  let ?e' = "deleteElement afterEditBack ''nope''"
  have b1: "''nope'' \<notin> set (currentIds afterEditBack)" by (simp add: afterEditBack_ids)
  have cc: "currentContent afterEditBack = back_content (theCard afterEdit)"
    by (simp add: afterEditBack_facts(1) activeContent_def) (simp add: theCard_def)
  have v: "withContent SideBack
        ((back_content (theCard afterEdit))\<lparr>elements :=
           filter (\<lambda>el. element_id el \<noteq> ''nope'') (elements (back_content (theCard afterEdit)))\<rparr>)
        (theCard afterEdit) = theCard afterEdit"
    by (simp add: afterEdit_front(3) withContent_def)
  have "objects ?e' = (objects afterEditBack)[card afterEditBack := theCard afterEdit]
          @ [theCard afterEdit]"
    using wf_afterEditBack v
    by (simp add: deleteElement_def Let_def split_def commit_objects cc afterEditBack_facts(5)
        afterEditBack_card)
  then have ob: "objects ?e' = (objects afterEditBack)[0 := theCard afterEdit] @ [theCard afterEdit]"
    by (simp add: afterEditBack_facts(2))
  have b2: "history ?e' = [0, 1, 3]"
    by (simp add: deleteElement_def Let_def split_def commit_history afterEditBack_facts(3,4,6))
  have b3: "historyIndex ?e' = 2"
    by (simp add: deleteElement_def Let_def split_def commit_history afterEditBack_facts(3,4))
  have o3: "objects ?e' ! 3 = theCard afterEdit"
    by (simp add: ob nth_append afterEditBack_facts(6))
  have o1: "objects ?e' ! 1 = theCard afterAdd"
    by (simp add: ob nth_append afterEditBack_facts(6,7))
  have "theCard afterEdit \<noteq> theCard afterAdd"
    using afterEdit_front(1) afterAdd_front(1) by auto
  with o3 o1 have b4: "objects ?e' ! 3 \<noteq> objects ?e' ! 1" by simp
  from wf_afterEdit a1 a2 a3 a4 wf_afterEditBack rendered_afterEditBack b1 b2 b3 b4
  show ?thesis by blast
qed

end
